theory Spec2Isabelle
  imports Complex_Main "HOL-Library.Sublist"
begin

section \<open>Strings\<close>

text \<open>
  Python's \<open>str\<close> is modelled by \<open>string\<close>. The model covers ASCII text: a
  character outside ASCII is neither cased, nor a digit, a word character or white space.
\<close>

definition ascii_uppercase :: string where
  "ascii_uppercase = ''ABCDEFGHIJKLMNOPQRSTUVWXYZ''"

definition ascii_lowercase :: string where
  "ascii_lowercase = ''abcdefghijklmnopqrstuvwxyz''"

text \<open>\<open>str.lower()\<close>, character by character.\<close>

definition lower_chr :: "char \<Rightarrow> char" where
  "lower_chr c = (case map_of (zip ascii_uppercase ascii_lowercase) c of Some l \<Rightarrow> l | None \<Rightarrow> c)"

definition lower :: "string \<Rightarrow> string" where
  "lower s = map lower_chr s"

text \<open>
  \<open>str.replace(old, new)\<close>: the occurrences of \<open>old\<close> are replaced from left to
  right, without overlap. With an empty \<open>old\<close>, \<open>new\<close> is put before every character and
  at the end.
\<close>

fun replace :: "string \<Rightarrow> string \<Rightarrow> string \<Rightarrow> string" where
  "replace old new [] = (if old = [] then new else [])"
| "replace old new (c # cs) =
     (if old = [] then new @ c # replace old new cs
      else if prefix old (c # cs) then new @ replace old new (drop (length old) (c # cs))
      else c # replace old new cs)"

text \<open>
  \<open>normalize\<close> of the source (named \<open>normalize_str\<close> here, \<open>normalize\<close> being
  a constant of the library): \<open>name.lower().replace(": ", ":").replace(" ", "-")\<close>.
\<close>

definition normalize_str :: "string \<Rightarrow> string" where
  "normalize_str name = replace '' '' ''-'' (replace '': '' '':'' (lower name))"

text \<open>
  The character classes of the regular expressions, on ASCII: \<open>\d\<close>, \<open>\w\<close> and
  \<open>\s\<close>. White space is what \<open>str.isspace\<close> accepts: tab to carriage return, the four
  separators 0x1C to 0x1F, and the space. \<open>str.strip()\<close> removes the same characters.
\<close>

definition is_digit :: "char \<Rightarrow> bool" where
  "is_digit c = (c \<in> set ''0123456789'')"

definition is_word :: "char \<Rightarrow> bool" where
  "is_word c = (c \<in> set ascii_lowercase \<or> c \<in> set ascii_uppercase \<or> is_digit c \<or> c = CHR ''_'')"

definition is_space :: "char \<Rightarrow> bool" where
  "is_space c = (c \<in> set [CHR 0x09, CHR 0x0A, CHR 0x0B, CHR 0x0C, CHR 0x0D,
                            CHR 0x1C, CHR 0x1D, CHR 0x1E, CHR 0x1F, CHR 0x20])"

definition strip :: "string \<Rightarrow> string" where
  "strip s = rev (dropWhile is_space (rev (dropWhile is_space s)))"

text \<open>\<open>str.title()\<close>: a letter after a letter is lower-cased, any other letter upper-cased.\<close>

definition upper_chr :: "char \<Rightarrow> char" where
  "upper_chr c = (case map_of (zip ascii_lowercase ascii_uppercase) c of Some u \<Rightarrow> u | None \<Rightarrow> c)"

definition is_cased :: "char \<Rightarrow> bool" where
  "is_cased c = (c \<in> set ascii_lowercase \<or> c \<in> set ascii_uppercase)"

fun title_from :: "bool \<Rightarrow> string \<Rightarrow> string" where
  "title_from previous_is_cased [] = []"
| "title_from previous_is_cased (c # cs) =
     (if previous_is_cased then lower_chr c else upper_chr c) # title_from (is_cased c) cs"

definition title :: "string \<Rightarrow> string" where
  "title s = title_from False s"

section \<open>Values, exceptions and the log\<close>

text \<open>
  The values \<open>json.loads\<close> returns and the service sends on: \<open>None\<close>, booleans, numbers,
  strings, lists and dictionaries. A dictionary is the list of its items in insertion order,
  its keys distinct. A number is never inspected by the service and stands as a rational.
\<close>

datatype json =
    JNull
  | JBool bool
  | JNum rat
  | JStr string
  | JArr "json list"
  | JObj "(string \<times> json) list"

datatype exn =
    TypeError
  | KeyError
  | IndexError
  | AttributeError
  | ValueError
  | JSONDecodeError
  | CalledProcessError
  | UnicodeDecodeError
  | OSError

datatype log = LogError string | LogInfo string

definition bind_exn :: "exn + 'a \<Rightarrow> ('a \<Rightarrow> exn + 'b) \<Rightarrow> exn + 'b" where
  "bind_exn m f = (case m of Inl e \<Rightarrow> Inl e | Inr x \<Rightarrow> f x)"

text \<open>A \<open>for\<close> loop over a list whose body updates a state and may raise.\<close>

fun for_each :: "('a \<Rightarrow> 's \<Rightarrow> exn + 's) \<Rightarrow> 'a list \<Rightarrow> 's \<Rightarrow> exn + 's" where
  "for_each body [] s = Inr s"
| "for_each body (x # xs) s = bind_exn (body x s) (for_each body xs)"

subsection \<open>The operations of Python the service applies to parsed values\<close>

text \<open>\<open>sub in s\<close> on two strings.\<close>

fun contains_str :: "string \<Rightarrow> string \<Rightarrow> bool" where
  "contains_str sub [] = (sub = [])"
| "contains_str sub (c # cs) = (prefix sub (c # cs) \<or> contains_str sub cs)"

text \<open>\<open>key in x\<close> for a string \<open>key\<close>.\<close>

fun py_in :: "string \<Rightarrow> json \<Rightarrow> exn + bool" where
  "py_in k (JObj kvs) = Inr (k \<in> set (map fst kvs))"
| "py_in k (JArr xs) = Inr (JStr k \<in> set xs)"
| "py_in k (JStr s) = Inr (contains_str k s)"
| "py_in k v = Inl TypeError"

text \<open>\<open>x[key]\<close> for a string \<open>key\<close>.\<close>

fun py_getitem :: "json \<Rightarrow> string \<Rightarrow> exn + json" where
  "py_getitem (JObj kvs) k = (case map_of kvs k of None \<Rightarrow> Inl KeyError | Some v \<Rightarrow> Inr v)"
| "py_getitem v k = Inl TypeError"

text \<open>\<open>x[0]\<close>. The keys of a parsed dictionary are strings, so \<open>0\<close> is none of them.\<close>

fun py_getitem0 :: "json \<Rightarrow> exn + json" where
  "py_getitem0 (JArr xs) = (case xs of [] \<Rightarrow> Inl IndexError | x # _ \<Rightarrow> Inr x)"
| "py_getitem0 (JStr s) = (case s of [] \<Rightarrow> Inl IndexError | c # _ \<Rightarrow> Inr (JStr [c]))"
| "py_getitem0 (JObj kvs) = Inl KeyError"
| "py_getitem0 v = Inl TypeError"

text \<open>\<open>for y in x\<close>: the elements of a list, the characters of a string, the keys of a dictionary.\<close>

fun py_iter :: "json \<Rightarrow> exn + json list" where
  "py_iter (JArr xs) = Inr xs"
| "py_iter (JStr s) = Inr (map (\<lambda>c. JStr [c]) s)"
| "py_iter (JObj kvs) = Inr (map (\<lambda>kv. JStr (fst kv)) kvs)"
| "py_iter v = Inl TypeError"

fun py_len :: "json \<Rightarrow> exn + nat" where
  "py_len (JArr xs) = Inr (length xs)"
| "py_len (JStr s) = Inr (length s)"
| "py_len (JObj kvs) = Inr (length kvs)"
| "py_len v = Inl TypeError"

text \<open>\<open>x.get(key, default)\<close>: only a dictionary has the method.\<close>

fun py_get :: "json \<Rightarrow> string \<Rightarrow> json \<Rightarrow> exn + json" where
  "py_get (JObj kvs) k d = Inr (case map_of kvs k of None \<Rightarrow> d | Some v \<Rightarrow> v)"
| "py_get v k d = Inl AttributeError"

text \<open>\<open>FileDetection.normalize(x)\<close> on a parsed value: only a string has \<open>lower\<close>.\<close>

fun normalize_value :: "json \<Rightarrow> exn + string" where
  "normalize_value (JStr s) = Inr (normalize_str s)"
| "normalize_value v = Inl AttributeError"

section \<open>The normalisation as the specification words it\<close>

text \<open>
  The specification's words for \<open>normalizeString\<close>: lower-case the text, collapse every
  colon followed by a space to the colon, then turn each remaining space into a hyphen.
\<close>

fun collapse_colon_space :: "string \<Rightarrow> string" where
  "collapse_colon_space [] = []"
| "collapse_colon_space [c] = [c]"
| "collapse_colon_space (c # d # r) =
     (if c = CHR '':'' \<and> d = CHR '' '' then CHR '':'' # collapse_colon_space r
      else c # collapse_colon_space (d # r))"

definition spaces_to_hyphens :: "string \<Rightarrow> string" where
  "spaces_to_hyphens s = map (\<lambda>c. if c = CHR '' '' then CHR ''-'' else c) s"

section \<open>Regular expressions\<close>

text \<open>
  A pattern is matched at the start of a text by backtracking. A matcher returns every way
  to match there, as the text consumed and the text left, in the order in which the
  backtracking search of \<open>re\<close> tries them: the first element is the match \<open>re\<close> reports.
\<close>

type_synonym matcher = "string \<Rightarrow> (string \<times> string) list"

text \<open>A literal character.\<close>

definition lit :: "char \<Rightarrow> matcher" where
  "lit c s = (case s of [] \<Rightarrow> [] | x # r \<Rightarrow> if x = c then [([x], r)] else [])"

text \<open>Concatenation: every match of the first pattern, each followed by every match of the second.\<close>

definition seq :: "matcher \<Rightarrow> matcher \<Rightarrow> matcher" where
  "seq p q s = concat (map (\<lambda>(a, r). map (\<lambda>(b, r'). (a @ b, r')) (q r)) (p s))"

text \<open>\<open>p?\<close>, greedy: the pattern first, then nothing.\<close>

definition opt :: "matcher \<Rightarrow> matcher" where
  "opt p s = p s @ [([], s)]"

text \<open>\<open>x*\<close> and \<open>x+\<close> for a character class \<open>x\<close>, greedy: the longer runs first.\<close>

fun star_class :: "(char \<Rightarrow> bool) \<Rightarrow> matcher" where
  "star_class P [] = [([], [])]"
| "star_class P (c # cs) =
     (if P c then map (\<lambda>(a, r). (c # a, r)) (star_class P cs) else []) @ [([], c # cs)]"

definition plus_class :: "(char \<Rightarrow> bool) \<Rightarrow> matcher" where
  "plus_class P s = (case s of [] \<Rightarrow> [] | c # cs \<Rightarrow>
     if P c then map (\<lambda>(a, r). (c # a, r)) (star_class P cs) else [])"

text \<open>The dot: any character but the line feed, and any character at all under \<open>re.DOTALL\<close>.\<close>

definition dot :: "char \<Rightarrow> bool" where
  "dot c = (c \<noteq> CHR 0x0A)"

definition dot_all :: "char \<Rightarrow> bool" where
  "dot_all c = True"

text \<open>
  \<open>re.search\<close>: the first match at the leftmost position that has one. The result is the
  text matched (\<open>match.group(0)\<close>) and the text after it.
\<close>

fun re_search :: "matcher \<Rightarrow> string \<Rightarrow> (string \<times> string) option" where
  "re_search p [] = (case p [] of [] \<Rightarrow> None | m # _ \<Rightarrow> Some m)"
| "re_search p (c # cs) = (case p (c # cs) of [] \<Rightarrow> re_search p cs | m # _ \<Rightarrow> Some m)"

text \<open>
  \<open>pattern.findall\<close> for a pattern with groups: the groups of the successive matches, each
  search starting where the match before it ended. The patterns here match no empty text;
  after an empty match the search would move on by one character.
\<close>

function findall :: "(string \<Rightarrow> ('g \<times> string) list) \<Rightarrow> string \<Rightarrow> 'g list" where
  "findall p s =
     (case p s of
        [] \<Rightarrow> (case s of [] \<Rightarrow> [] | c # cs \<Rightarrow> findall p cs)
      | (g, r) # _ \<Rightarrow>
          if length r < length s then g # findall p r
          else g # (case s of [] \<Rightarrow> [] | c # cs \<Rightarrow> findall p cs))"
  by pat_completeness auto
termination
  by (relation "measure (\<lambda>(p, s). length s)") auto

text \<open>The pattern of the DiE output, \<open>\{.*\}\<close> under \<open>re.DOTALL\<close>.\<close>

definition die_pattern :: matcher where
  "die_pattern = seq (lit CHR ''{'') (seq (star_class dot_all) (lit CHR ''}''))"

text \<open>
  The pattern of a TrID line, \<open>(\d+(?:\.\d+)?)%\s+\((\.\w+)\)\s+(.+)\<close>, with its three
  groups: the percentage, the extension and the name.
\<close>

definition trid_pattern :: "string \<Rightarrow> ((string \<times> string \<times> string) \<times> string) list" where
  "trid_pattern s =
     [((percent, ext, name), r8).
        (percent, r1) \<leftarrow> seq (plus_class is_digit) (opt (seq (lit CHR ''.'') (plus_class is_digit))) s,
        (percent_sign, r2) \<leftarrow> lit CHR ''%'' r1,
        (space1, r3) \<leftarrow> plus_class is_space r2,
        (paren_open, r4) \<leftarrow> lit CHR ''('' r3,
        (ext, r5) \<leftarrow> seq (lit CHR ''.'') (plus_class is_word) r4,
        (paren_close, r6) \<leftarrow> lit CHR '')'' r5,
        (space2, r7) \<leftarrow> plus_class is_space r6,
        (name, r8) \<leftarrow> plus_class dot r7]"

section \<open>The service\<close>

subsection \<open>\<open>get_tags_from_die\<close>\<close>

text \<open>
  \<open>tags.add(x)\<close>. The set of tags is kept as a list without repetition; the order of
  \<open>list(tags)\<close> is not fixed by Python, and nothing below depends on the order chosen here.
\<close>

definition set_add :: "string \<Rightarrow> string list \<Rightarrow> string list" where
  "set_add x tags = (if x \<in> set tags then tags else tags @ [x])"

text \<open>The body of the inner loop, for one \<open>packer\<close>.\<close>

definition packer_tags :: "json \<Rightarrow> string list \<Rightarrow> exn + string list" where
  "packer_tags packer tags =
     bind_exn (py_in ''type'' packer) (\<lambda>has_type.
     if \<not> has_type then Inr tags
     else bind_exn (py_in ''name'' packer) (\<lambda>has_name.
     if \<not> has_name then Inr tags
     else bind_exn (py_getitem packer ''type'') (\<lambda>type_value.
          bind_exn (normalize_value type_value) (\<lambda>packer_type.
          bind_exn (py_getitem packer ''name'') (\<lambda>name_value.
          bind_exn (normalize_value name_value) (\<lambda>packer_name.
          if packer_type = ''unknown'' \<or> packer_name = ''unknown'' then Inr tags
          else if packer_type = ''malware'' \<and> packer_name \<noteq> ''unknown''
            then Inr (set_add packer_name tags)
          else Inr (set_add (packer_type @ '':'' @ packer_name) tags)))))))"

text \<open>The body of the outer loop, for one \<open>detected\<close>.\<close>

definition detected_tags :: "json \<Rightarrow> string list \<Rightarrow> exn + string list" where
  "detected_tags detected tags =
     bind_exn (py_in ''values'' detected) (\<lambda>has_values.
     if \<not> has_values then Inr tags
     else bind_exn (py_getitem detected ''values'') (\<lambda>values.
          bind_exn (py_iter values) (\<lambda>packers.
          for_each packer_tags packers tags)))"

definition get_tags_from_die :: "json list \<Rightarrow> exn + string list" where
  "get_tags_from_die die_data = for_each detected_tags die_data []"

subsection \<open>\<open>extract_json_output_from_die\<close>\<close>

text \<open>
  The body of the filtering loop, for one \<open>detected\<close>: the output with \<open>detected\<close>
  appended, or unchanged after a \<open>continue\<close>. Both conditions evaluate
  \<open>len(detected.get("values", []))\<close>.
\<close>

definition die_step :: "json \<Rightarrow> json list \<Rightarrow> exn + json list" where
  "die_step detected output =
     bind_exn (py_get detected ''values'' (JArr [])) (\<lambda>values.
     bind_exn (py_len values) (\<lambda>n.
     if n = 0 then Inr output
     else bind_exn (py_get detected ''values'' (JArr [])) (\<lambda>values'.
          bind_exn (py_len values') (\<lambda>n'.
          if n' = 1 then
            bind_exn (py_getitem detected ''values'') (\<lambda>vs.
            bind_exn (py_getitem0 vs) (\<lambda>v0.
            bind_exn (py_getitem v0 ''type'') (\<lambda>t.
            if t = JStr ''Unknown'' then Inr output else Inr (output @ [detected]))))
          else Inr (output @ [detected])))))"

text \<open>
  The function returns the log lines it wrote and its result or the exception it raised.
  \<open>json.loads\<close> is the library's; it is the parameter \<open>loads\<close>.
\<close>

definition extract_json_output_from_die ::
  "(string \<Rightarrow> exn + json) \<Rightarrow> string \<Rightarrow> string \<Rightarrow> log list \<times> (exn + json list)" where
  "extract_json_output_from_die loads die_data sample_hash =
     (if die_data = [] then ([], Inr [])
      else case re_search die_pattern die_data of
        None \<Rightarrow>
          ([LogError (''Could not find JSON object in DiE output for '' @ sample_hash)], Inr [])
      | Some (json_str, after) \<Rightarrow>
          (case loads json_str of
             Inl e \<Rightarrow> ([], Inl e)
           | Inr parsed_data \<Rightarrow>
               (case py_in ''detects'' parsed_data of
                  Inl e \<Rightarrow> ([], Inl e)
                | Inr False \<Rightarrow>
                    ([LogError (sample_hash @ '' failed running file-detection. Error code 01'')],
                     Inr [])
                | Inr True \<Rightarrow>
                    ([], bind_exn (py_getitem parsed_data ''detects'') (\<lambda>detects.
                         bind_exn (py_iter detects) (\<lambda>ds.
                         for_each die_step ds []))))))"

subsection \<open>\<open>extract_json_output_from_trid\<close>\<close>

text \<open>
  \<open>float(s)\<close> on a decimal literal, digits with an optional fraction. The value is the
  exact decimal value: the rounding to a binary double is not modelled. \<open>float\<close> accepts
  further forms (a sign, an exponent, \<open>inf\<close>, \<open>nan\<close>, white space around the literal);
  the model raises \<open>ValueError\<close> on everything but a decimal literal, so a result of the
  model is a result of \<open>float\<close>.
\<close>

definition decimal_literal :: "string \<Rightarrow> bool" where
  "decimal_literal s =
     (let whole = takeWhile is_digit s; r = dropWhile is_digit s in
      whole \<noteq> [] \<and> (r = [] \<or> hd r = CHR ''.'' \<and> tl r \<noteq> [] \<and> list_all is_digit (tl r)))"

definition digits_value :: "string \<Rightarrow> nat" where
  "digits_value ds = foldl (\<lambda>n d. 10 * n + (of_char d - 48)) 0 ds"

definition decimal_value :: "string \<Rightarrow> rat" where
  "decimal_value s =
     (let whole = takeWhile is_digit s; frac = drop 1 (dropWhile is_digit s) in
      of_nat (digits_value whole) + of_nat (digits_value frac) / 10 ^ length frac)"

definition py_float :: "string \<Rightarrow> exn + rat" where
  "py_float s = (if decimal_literal s then Inr (decimal_value s) else Inl ValueError)"

definition TRID_CUTOFF :: rat where
  "TRID_CUTOFF = 5"

text \<open>
  The list comprehension over the matches: the condition \<open>float(percent) > TRID_CUTOFF\<close>
  is evaluated first, then the dictionary of a match that passes it.
\<close>

fun trid_entries :: "(string \<times> string \<times> string) list \<Rightarrow> exn + json list" where
  "trid_entries [] = Inr []"
| "trid_entries ((percent, ext, name) # matches) =
     bind_exn (py_float percent) (\<lambda>p.
     if p > TRID_CUTOFF then
       bind_exn (py_float percent) (\<lambda>percentage.
       bind_exn (trid_entries matches) (\<lambda>rest.
       Inr (JObj [(''percentage'', JNum percentage), (''extension'', JStr ext),
                  (''name'', JStr (strip name))] # rest)))
     else trid_entries matches)"

definition extract_json_output_from_trid ::
  "string \<Rightarrow> string \<Rightarrow> log list \<times> (exn + json list)" where
  "extract_json_output_from_trid trid_data sample_hash =
     (if trid_data = [] then ([], Inr [])
      else let matches = findall trid_pattern trid_data in
        if matches = [] then
          ([LogError (''Could not find JSON object in TrID output for '' @ sample_hash)], Inr [])
        else ([], bind_exn (trid_entries matches) (\<lambda>entries. Inr (rev entries))))"

text \<open>
  The specification's words for a heuristic match: its entry, and whether its percentage
  is above the cutoff.
\<close>

fun heuristic_match :: "string \<times> string \<times> string \<Rightarrow> json" where
  "heuristic_match (percent, ext, name) =
     JObj [(''percentage'', JNum (decimal_value percent)), (''extension'', JStr ext),
           (''name'', JStr (strip name))]"

fun above_cutoff :: "string \<times> string \<times> string \<Rightarrow> bool" where
  "above_cutoff (percent, ext, name) = (TRID_CUTOFF < decimal_value percent)"

subsection \<open>\<open>process\<close>\<close>

text \<open>
  \<open>process\<close> is modelled from the answers of the three detectors to the outcome of the
  call. Fetching the resource of the task, the temporary file and \<open>send_task\<close> itself
  belong to the Karton framework and are taken to succeed.
\<close>

text \<open>The sample resource of the task: its hash, which may be missing, and its name.\<close>

record remote_resource =
  sha256 :: "string option"
  resource_name :: string

text \<open>What Magika returns for the file: the fields of its output that the service reads.\<close>

record magika_result =
  output_label :: string
  output_description :: string
  output_extensions :: "string list"
  output_group :: string
  score :: rat

text \<open>
  What the three detectors answer for the sample, each its result or the exception of the
  call: the decoded standard output of \<open>diec\<close> and of \<open>trid\<close>
  (\<open>subprocess.check_output(...).decode("utf-8")\<close>), and the result of
  \<open>Magika().identify_path\<close>.
\<close>

record detectors =
  diec_output :: "exn + string"
  trid_output :: "exn + string"
  magika_identify :: "exn + magika_result"

text \<open>The task sent on: its headers and the three entries of its payload.\<close>

record attributes =
  attr_die :: "json list"
  attr_trid :: "json list"
  attr_magika :: "json list"

record task =
  headers :: "(string \<times> string) list"
  payload_sample :: remote_resource
  payload_tags :: "string list"
  payload_attributes :: attributes

text \<open>
  What a call of \<open>process\<close> leaves behind: the log lines, the tasks passed to
  \<open>send_task\<close>, and the exception that ended the call, if one did.
\<close>

record outcome =
  logged :: "log list"
  sent :: "task list"
  raised :: "exn option"

text \<open>
  \<open>round(x, 2)\<close>, to the nearest multiple of a hundredth, a tie to the even one, on the
  exact value.
\<close>

definition round2 :: "rat \<Rightarrow> rat" where
  "round2 x =
     (let y = x * 100; f = \<lfloor>y\<rfloor>; d = y - of_int f;
          n = (if d < 1 / 2 then f else if 1 / 2 < d then f + 1 else if even f then f else f + 1)
      in of_int n / 100)"

text \<open>The one-element list \<open>magika_json\<close>.\<close>

definition magika_json_of :: "magika_result \<Rightarrow> json list" where
  "magika_json_of magika_data =
     [JObj [(''label'', JStr (title (output_label magika_data))),
            (''description'', JStr (output_description magika_data)),
            (''extensions'', JArr (map JStr (output_extensions magika_data))),
            (''group'', JStr (output_group magika_data)),
            (''score'', JNum (round2 (score magika_data * 100)))]]"

text \<open>An optional string inside an f-string.\<close>

definition format_opt :: "string option \<Rightarrow> string" where
  "format_opt x = (case x of None \<Rightarrow> ''None'' | Some s \<Rightarrow> s)"

text \<open>\<open>sample_resource.sha256 or sample_resource.name\<close>\<close>

definition sample_id :: "remote_resource \<Rightarrow> string" where
  "sample_id r = (case sha256 r of None \<Rightarrow> resource_name r
                  | Some h \<Rightarrow> if h = [] then resource_name r else h)"

text \<open>
  The end of \<open>process\<close>, from the first \<open>log.info\<close> on: the test of the three lists, the
  tags, and the task sent. \<open>logs\<close> are the lines written before.
\<close>

definition forward ::
  "remote_resource \<Rightarrow> json list \<Rightarrow> json list \<Rightarrow> json list \<Rightarrow> log list \<Rightarrow> outcome" where
  "forward sample_resource die_json trid_json magika_json logs =
     (let logs1 = logs @ [LogInfo (''Successfully perform DiE, TrID, and Magika on '' @
                                   format_opt (sha256 sample_resource))] in
      if die_json = [] \<and> trid_json = [] \<and> magika_json = [] then
        \<lparr>logged = logs1, sent = [], raised = None\<rparr>
      else case get_tags_from_die die_json of
        Inl e \<Rightarrow> \<lparr>logged = logs1, sent = [], raised = Some e\<rparr>
      | Inr tags \<Rightarrow>
          \<lparr>logged = logs1 @ [LogInfo (''Successfully pushed DiE, TrID, and Magika data for '' @
                                      format_opt (sha256 sample_resource))],
           sent = [\<lparr>headers = [(''type'', ''sample''), (''stage'', ''analyzed'')],
                    payload_sample = sample_resource,
                    payload_tags = tags,
                    payload_attributes =
                      \<lparr>attr_die = die_json, attr_trid = trid_json, attr_magika = magika_json\<rparr>\<rparr>],
           raised = None\<rparr>)"

definition failed :: "log list \<Rightarrow> exn \<Rightarrow> outcome" where
  "failed logs e = \<lparr>logged = logs, sent = [], raised = Some e\<rparr>"

definition process :: "(string \<Rightarrow> exn + json) \<Rightarrow> detectors \<Rightarrow> remote_resource \<Rightarrow> outcome" where
  "process loads env sample_resource =
     (case diec_output env of
        Inl e \<Rightarrow> failed [] e
      | Inr die_data \<Rightarrow>
     (case extract_json_output_from_die loads die_data (sample_id sample_resource) of
        (logs1, Inl e) \<Rightarrow> failed logs1 e
      | (logs1, Inr die_json) \<Rightarrow>
     (case trid_output env of
        Inl e \<Rightarrow> failed logs1 e
      | Inr trid_data \<Rightarrow>
     (case extract_json_output_from_trid trid_data (sample_id sample_resource) of
        (logs2, Inl e) \<Rightarrow> failed (logs1 @ logs2) e
      | (logs2, Inr trid_json) \<Rightarrow>
     (case magika_identify env of
        Inl e \<Rightarrow> failed (logs1 @ logs2) e
      | Inr magika_data \<Rightarrow>
          forward sample_resource die_json trid_json (magika_json_of magika_data)
            (logs1 @ logs2))))))"

section \<open>The derivation of tags as the specification words it\<close>

text \<open>
  The tag of a value with type \<open>ty\<close> and name \<open>nm\<close>: none when either normalises to
  \<open>unknown\<close>; the normalised name alone for the type \<open>malware\<close>; otherwise the normalised
  type, a colon and the normalised name.
\<close>

definition value_tag :: "string \<Rightarrow> string \<Rightarrow> string option" where
  "value_tag ty nm =
     (if normalize_str ty = ''unknown'' \<or> normalize_str nm = ''unknown'' then None
      else if normalize_str ty = ''malware'' then Some (normalize_str nm)
      else Some (normalize_str ty @ '':'' @ normalize_str nm))"

text \<open>The values of a finding, and the type and name of a value that has both.\<close>

fun finding_values :: "json \<Rightarrow> json list" where
  "finding_values (JObj kvs) = (case map_of kvs ''values'' of Some (JArr vs) \<Rightarrow> vs | _ \<Rightarrow> [])"
| "finding_values v = []"

fun value_fields :: "json \<Rightarrow> (string \<times> string) option" where
  "value_fields (JObj kvs) =
     (case (map_of kvs ''type'', map_of kvs ''name'') of
        (Some (JStr ty), Some (JStr nm)) \<Rightarrow> Some (ty, nm)
      | _ \<Rightarrow> None)"
| "value_fields v = None"

definition tag_of_value :: "json \<Rightarrow> string option" where
  "tag_of_value v = (case value_fields v of None \<Rightarrow> None | Some (ty, nm) \<Rightarrow> value_tag ty nm)"

definition derived_tags :: "json list \<Rightarrow> string set" where
  "derived_tags findings = set (List.map_filter tag_of_value (concat (map finding_values findings)))"

text \<open>
  Findings of the shape the data model gives them: a finding is an object whose
  \<open>values\<close>, when present, is a list of objects; in a value that has both a \<open>type\<close> and a
  \<open>name\<close>, both are strings.
\<close>

fun typed_value :: "json \<Rightarrow> bool" where
  "typed_value (JObj kvs) =
     (case (map_of kvs ''type'', map_of kvs ''name'') of
        (Some ty, Some nm) \<Rightarrow> (case ty of JStr a \<Rightarrow> (case nm of JStr b \<Rightarrow> True | _ \<Rightarrow> False) | _ \<Rightarrow> False)
      | _ \<Rightarrow> True)"
| "typed_value v = False"

fun typed_finding :: "json \<Rightarrow> bool" where
  "typed_finding (JObj kvs) =
     (case map_of kvs ''values'' of
        None \<Rightarrow> True
      | Some vs \<Rightarrow> (case vs of JArr xs \<Rightarrow> list_all typed_value xs | _ \<Rightarrow> False))"
| "typed_finding v = False"

section \<open>The filter of findings as the specification words it\<close>

text \<open>
  A finding is dropped when it has no values, or exactly one value whose \<open>type\<close> is the
  literal \<open>Unknown\<close>; every other finding is kept.
\<close>

fun field :: "string \<Rightarrow> json \<Rightarrow> json option" where
  "field k (JObj kvs) = map_of kvs k"
| "field k v = None"

definition finding_kept :: "json \<Rightarrow> bool" where
  "finding_kept d =
     (case finding_values d of
        [] \<Rightarrow> False
      | [v] \<Rightarrow> field ''type'' v \<noteq> Some (JStr ''Unknown'')
      | _ \<Rightarrow> True)"

text \<open>
  The findings on which the filter raises nothing: objects whose \<open>values\<close>, when present,
  is a list, its single element, if it has just one, an object with a \<open>type\<close>.
\<close>

fun typed_entry :: "json \<Rightarrow> bool" where
  "typed_entry (JObj kvs) =
     (case map_of kvs ''values'' of
        None \<Rightarrow> True
      | Some vs \<Rightarrow> (case vs of
          JArr xs \<Rightarrow> (case xs of [v] \<Rightarrow> field ''type'' v \<noteq> None | _ \<Rightarrow> True)
        | _ \<Rightarrow> False))"
| "typed_entry v = False"

section \<open>A JSON reader for the examples\<close>

text \<open>
  The theorems below hold for every function \<open>loads\<close>. To run the service on concrete
  texts, \<open>json_loads\<close> reads the JSON texts the examples use: objects, arrays, strings with
  the one-character escapes, integers and decimal fractions, \<open>true\<close>, \<open>false\<close> and
  \<open>null\<close>. Any other text is a \<open>JSONDecodeError\<close>. In an object, a key that comes
  again replaces the value and keeps its place, as in a dictionary.
\<close>

definition json_ws :: "char \<Rightarrow> bool" where
  "json_ws c = (c \<in> set [CHR 0x20, CHR 0x09, CHR 0x0A, CHR 0x0D])"

definition skip_ws :: "string \<Rightarrow> string" where
  "skip_ws s = dropWhile json_ws s"

definition unescape :: "char \<Rightarrow> char option" where
  "unescape c = map_of [(CHR 0x22, CHR 0x22), (CHR 0x5C, CHR 0x5C), (CHR ''/'', CHR ''/''),
     (CHR ''b'', CHR 0x08), (CHR ''f'', CHR 0x0C), (CHR ''n'', CHR 0x0A), (CHR ''r'', CHR 0x0D),
     (CHR ''t'', CHR 0x09)] c"

text \<open>The characters of a string after its opening quote, and the text after the closing one.\<close>

fun read_string :: "string \<Rightarrow> (string \<times> string) option" where
  "read_string [] = None"
| "read_string [c] = (if c = CHR 0x22 then Some ([], []) else None)"
| "read_string (c # d # r) =
     (if c = CHR 0x22 then Some ([], d # r)
      else if c = CHR 0x5C then
        (case unescape d of
           None \<Rightarrow> None
         | Some x \<Rightarrow> map_option (\<lambda>(s, r'). (x # s, r')) (read_string r))
      else if (of_char c :: nat) < 32 then None
      else map_option (\<lambda>(s, r'). (c # s, r')) (read_string (d # r)))"

text \<open>A number: an optional minus sign, digits, and an optional fraction.\<close>

definition read_number :: "string \<Rightarrow> (json \<times> string) option" where
  "read_number s =
     (let neg = (s \<noteq> [] \<and> hd s = CHR ''-'');
          s1 = (if neg then tl s else s);
          whole = takeWhile is_digit s1; r = dropWhile is_digit s1;
          frac = (if r \<noteq> [] \<and> hd r = CHR ''.'' then takeWhile is_digit (tl r) else []);
          r' = (if frac = [] then r else dropWhile is_digit (tl r));
          v = of_nat (digits_value whole) + of_nat (digits_value frac) / 10 ^ length frac
      in if whole = [] \<or> (length whole > 1 \<and> hd whole = CHR ''0'') then None
         else if r \<noteq> [] \<and> hd r = CHR ''.'' \<and> frac = [] then None
         else Some (JNum (if neg then - v else v), r'))"

definition dict_set :: "string \<Rightarrow> json \<Rightarrow> (string \<times> json) list \<Rightarrow> (string \<times> json) list" where
  "dict_set k v kvs = (if k \<in> set (map fst kvs)
     then map (\<lambda>(k', v'). if k' = k then (k', v) else (k', v')) kvs else kvs @ [(k, v)])"

text \<open>
  The reader proper. Every call consumes a character, so a budget of one more than the
  length of the text is never used up.
\<close>

fun read_value :: "nat \<Rightarrow> string \<Rightarrow> (json \<times> string) option"
  and read_elements :: "nat \<Rightarrow> json list \<Rightarrow> string \<Rightarrow> (json \<times> string) option"
  and read_members :: "nat \<Rightarrow> (string \<times> json) list \<Rightarrow> string \<Rightarrow> (json \<times> string) option"
where
  "read_value 0 s = None"
| "read_value (Suc n) s =
     (case skip_ws s of
        [] \<Rightarrow> None
      | c # r \<Rightarrow>
          if c = CHR ''{'' then
            (case skip_ws r of
               [] \<Rightarrow> None
             | d # r' \<Rightarrow> if d = CHR ''}'' then Some (JObj [], r') else read_members n [] (d # r'))
          else if c = CHR ''['' then
            (case skip_ws r of
               [] \<Rightarrow> None
             | d # r' \<Rightarrow> if d = CHR '']'' then Some (JArr [], r') else read_elements n [] (d # r'))
          else if c = CHR 0x22 then map_option (\<lambda>(x, r'). (JStr x, r')) (read_string r)
          else if prefix ''true'' (c # r) then Some (JBool True, drop 4 (c # r))
          else if prefix ''false'' (c # r) then Some (JBool False, drop 5 (c # r))
          else if prefix ''null'' (c # r) then Some (JNull, drop 4 (c # r))
          else read_number (c # r))"
| "read_elements 0 acc s = None"
| "read_elements (Suc n) acc s =
     (case read_value n s of
        None \<Rightarrow> None
      | Some (v, r) \<Rightarrow>
          (case skip_ws r of
             [] \<Rightarrow> None
           | c # r' \<Rightarrow>
               if c = CHR '']'' then Some (JArr (acc @ [v]), r')
               else if c = CHR '','' then read_elements n (acc @ [v]) r'
               else None))"
| "read_members 0 acc s = None"
| "read_members (Suc n) acc s =
     (case skip_ws s of
        [] \<Rightarrow> None
      | q # r0 \<Rightarrow>
          if q \<noteq> CHR 0x22 then None
          else (case read_string r0 of
             None \<Rightarrow> None
           | Some (k, r1) \<Rightarrow>
               (case skip_ws r1 of
                  [] \<Rightarrow> None
                | c # r2 \<Rightarrow>
                    if c \<noteq> CHR '':'' then None
                    else (case read_value n r2 of
                       None \<Rightarrow> None
                     | Some (v, r3) \<Rightarrow>
                         (case skip_ws r3 of
                            [] \<Rightarrow> None
                          | d # r4 \<Rightarrow>
                              if d = CHR ''}'' then Some (JObj (dict_set k v acc), r4)
                              else if d = CHR '','' then read_members n (dict_set k v acc) r4
                              else None)))))"

definition json_loads :: "string \<Rightarrow> exn + json" where
  "json_loads s =
     (case read_value (Suc (length s)) s of
        None \<Rightarrow> Inl JSONDecodeError
      | Some (v, r) \<Rightarrow> if skip_ws r = [] then Inr v else Inl JSONDecodeError)"

section \<open>Example inputs\<close>

definition example_sample :: remote_resource where
  "example_sample = \<lparr>sha256 = Some ''abc'', resource_name = ''a.exe''\<rparr>"

text \<open>Magika's answer for a file it does not recognise.\<close>

definition magika_unknown :: magika_result where
  "magika_unknown = \<lparr>output_label = ''unknown'', output_description = ''Unknown binary data'',
     output_extensions = [], output_group = ''unknown'', score = 1 / 2\<rparr>"

text \<open>Both external tools print nothing, and Magika does not recognise the file.\<close>

definition silent_detectors :: detectors where
  "silent_detectors = \<lparr>diec_output = Inr [], trid_output = Inr [],
     magika_identify = Inr magika_unknown\<rparr>"

text \<open>Two reports of TrID: the one of the specification, and one with two lines above the cutoff.\<close>

definition trid_report :: string where
  "trid_report = ''80.0% (.exe) Win32 Executable\<newline>3.0% (.bin) Generic binary\<newline>''"


text \<open>Findings to run the derivation of tags on.\<close>

definition example_findings :: "json list" where
  "example_findings =
     [JObj [(''values'', JArr [JObj [(''type'', JStr ''Malware''), (''name'', JStr ''Emotet'')],
                               JObj [(''type'', JStr ''Packer''), (''name'', JStr ''UPX'')],
                               JObj [(''type'', JStr ''Unknown''), (''name'', JStr ''X'')],
                               JObj [(''type'', JStr ''PACKER''), (''name'', JStr ''upx'')],
                               JObj [(''name'', JStr ''no type'')]])],
      JObj [(''filetype'', JStr ''PE32'')]]"

section \<open>Normalisation of strings\<close>

lemma lower_chr_idem: "lower_chr (lower_chr c) = lower_chr c"
  by (simp add: lower_chr_def ascii_uppercase_def ascii_lowercase_def)

lemma replace_set: "old \<noteq> [] \<Longrightarrow> set (replace old new s) \<subseteq> set s \<union> set new"
proof (induction old new s rule: replace.induct)
  case (1 old new)
  then show ?case by simp
next
  case (2 old new c cs)
  show ?case
  proof (cases "prefix old (c # cs)")
    case True
    have "set (drop (length old) (c # cs)) \<subseteq> set (c # cs)" by (rule set_drop_subset)
    with 2 True show ?thesis by auto
  next
    case False
    with 2 show ?thesis by auto
  qed
qed

lemma replace_absent: "old \<noteq> [] \<Longrightarrow> \<not> set old \<subseteq> set s \<Longrightarrow> replace old new s = s"
proof (induction old new s rule: replace.induct)
  case (1 old new)
  then show ?case by simp
next
  case (2 old new c cs)
  have np: "\<not> prefix old (c # cs)"
  proof
    assume "prefix old (c # cs)"
    then have "set old \<subseteq> set (c # cs)" by (rule set_mono_prefix)
    with 2 show False by simp
  qed
  have "\<not> set old \<subseteq> set cs" using 2(5) by auto
  with 2 np show ?case by simp
qed

lemma replace_space_no_space: "CHR '' '' \<notin> set (replace '' '' ''-'' s)"
  by (induction s) auto

lemma replace_space_map: "replace '' '' ''-'' s = spaces_to_hyphens s"
  unfolding spaces_to_hyphens_def by (induction s) auto

lemma replace_colon_collapse: "replace '': '' '':'' s = collapse_colon_space s"
  by (induction s rule: collapse_colon_space.induct) auto

lemma normalize_str_no_space: "CHR '' '' \<notin> set (normalize_str s)"
  unfolding normalize_str_def by (rule replace_space_no_space)

lemma lower_chr_fix: "c \<in> set (normalize_str s) \<Longrightarrow> lower_chr c = c"
proof -
  assume c: "c \<in> set (normalize_str s)"
  have "set (normalize_str s) \<subseteq> set (replace '': '' '':'' (lower s)) \<union> set ''-''"
    unfolding normalize_str_def by (rule replace_set) simp
  moreover have "set (replace '': '' '':'' (lower s)) \<subseteq> set (lower s) \<union> set '':''"
    by (rule replace_set) simp
  ultimately have "c \<in> set (lower s) \<or> c = CHR '':'' \<or> c = CHR ''-''"
    using c by auto
  then show ?thesis
  proof (elim disjE)
    assume "c \<in> set (lower s)"
    then obtain d where "c = lower_chr d" by (auto simp: lower_def)
    then show ?thesis by (simp add: lower_chr_idem)
  qed (simp_all add: lower_chr_def ascii_uppercase_def ascii_lowercase_def)
qed

text \<open>
  C7. \<open>normalize\<close> is idempotent: normalising a normalised string changes nothing, for
  every string.
\<close>

theorem normalize_idempotent: "normalize_str (normalize_str s) = normalize_str s"
proof -
  let ?t = "normalize_str s"
  have nosp: "CHR '' '' \<notin> set ?t" by (rule normalize_str_no_space)
  have low: "lower ?t = ?t"
    unfolding lower_def by (rule map_idI) (rule lower_chr_fix)
  have r1: "replace '': '' '':'' ?t = ?t"
    by (rule replace_absent) (use nosp in auto)
  have r2: "replace '' '' ''-'' ?t = ?t"
    by (rule replace_absent) (use nosp in auto)
  have "normalize_str ?t = replace '' '' ''-'' (replace '': '' '':'' (lower ?t))"
    by (simp only: normalize_str_def)
  with low r1 r2 show ?thesis by simp
qed

theorem normalize_idempotent_witness:
  "normalize_str ''Some: Value Here'' = ''some:value-here'' \<and>
   normalize_str ''some:value-here'' = ''some:value-here''"
proof -
  have e: "normalize_str ''Some: Value Here'' = ''some:value-here''"
    by (simp add: normalize_str_def lower_def lower_chr_def ascii_uppercase_def
        ascii_lowercase_def)
  from normalize_idempotent [of "''Some: Value Here''"] e show ?thesis by simp
qed

text \<open>
  C8. \<open>normalize\<close> is a total function of its argument alone that lower-cases the text,
  then collapses every colon followed by a space to the colon, then replaces every
  remaining space by a hyphen, so that no space is left; it sends
  \<open>Some: Value Here\<close> to \<open>some:value-here\<close>.
\<close>

theorem normalize_lower_collapse_hyphen:
  "normalize_str s = spaces_to_hyphens (collapse_colon_space (lower s)) \<and>
   CHR '' '' \<notin> set (normalize_str s) \<and>
   normalize_str ''Some: Value Here'' = ''some:value-here''"
proof (intro conjI)
  show "normalize_str s = spaces_to_hyphens (collapse_colon_space (lower s))"
    by (simp add: normalize_str_def replace_colon_collapse replace_space_map)
  show "CHR '' '' \<notin> set (normalize_str s)" by (rule normalize_str_no_space)
  show "normalize_str ''Some: Value Here'' = ''some:value-here''"
    by (simp add: normalize_str_def lower_def lower_chr_def ascii_uppercase_def
        ascii_lowercase_def)
qed

theorem normalize_lower_collapse_hyphen_witness:
  "normalize_str ''A:  b C'' = ''a:-b-c'' \<and>
   spaces_to_hyphens (collapse_colon_space (lower ''A:  b C'')) = ''a:-b-c''"
  using normalize_lower_collapse_hyphen [of "''A:  b C''"]
  by (simp add: spaces_to_hyphens_def lower_def lower_chr_def ascii_uppercase_def
      ascii_lowercase_def)


section \<open>The pattern of the DiE output\<close>

lemma seq_star_all_Cons:
  "seq (star_class dot_all) q (c # cs) = map (\<lambda>(a, r). (c # a, r)) (seq (star_class dot_all) q cs) @ q (c # cs)"
  by (simp add: seq_def dot_all_def map_concat o_def split_def)

lemma close_absent: "CHR ''}'' \<notin> set s \<Longrightarrow> seq (star_class dot_all) (lit CHR ''}'') s = []"
proof (induction s)
  case Nil
  show ?case by (simp add: seq_def lit_def)
next
  case (Cons c cs)
  then show ?case by (auto simp: seq_star_all_Cons lit_def)
qed

lemma close_last:
  "CHR ''}'' \<notin> set post \<Longrightarrow>
   \<exists>others. seq (star_class dot_all) (lit CHR ''}'') (mid @ CHR ''}'' # post) = (mid @ ''}'', post) # others"
proof (induction mid)
  case Nil
  then show ?case by (simp add: seq_star_all_Cons close_absent) (simp add: lit_def)
next
  case (Cons c mid)
  then obtain others
    where "seq (star_class dot_all) (lit CHR ''}'') (mid @ CHR ''}'' # post) = (mid @ ''}'', post) # others"
    by blast
  then show ?case by (simp add: seq_star_all_Cons)
qed

lemma die_pattern_open:
  "die_pattern (CHR ''{'' # t) = map (\<lambda>(b, r). (CHR ''{'' # b, r)) (seq (star_class dot_all) (lit CHR ''}'') t)"
  by (simp add: die_pattern_def seq_def [of "lit CHR ''{''"] lit_def [of "CHR ''{''"])

lemma die_pattern_other: "s = [] \<or> hd s \<noteq> CHR ''{'' \<Longrightarrow> die_pattern s = []"
  by (cases s) (auto simp: die_pattern_def seq_def [of "lit CHR ''{''"] lit_def [of "CHR ''{''"])

lemma search_first_open_last_close:
  assumes "CHR ''{'' \<notin> set pre" and "CHR ''}'' \<notin> set post"
  shows "re_search die_pattern (pre @ CHR ''{'' # mid @ CHR ''}'' # post) = Some (CHR ''{'' # mid @ ''}'', post)"
  using assms(1)
proof (induction pre)
  case Nil
  from close_last [OF assms(2), of mid] obtain others
    where "seq (star_class dot_all) (lit CHR ''}'') (mid @ CHR ''}'' # post) = (mid @ ''}'', post) # others"
    by blast
  then show ?case by (simp add: die_pattern_open)
next
  case (Cons c pre)
  then have "die_pattern (c # pre @ CHR ''{'' # mid @ CHR ''}'' # post) = []"
    by (intro die_pattern_other) auto
  with Cons show ?case by simp
qed

lemma search_none_no_open: "CHR ''{'' \<notin> set s \<Longrightarrow> re_search die_pattern s = None"
proof (induction s)
  case Nil
  show ?case by (simp add: die_pattern_other)
next
  case (Cons c cs)
  then have "die_pattern (c # cs) = []" by (intro die_pattern_other) auto
  with Cons show ?case by simp
qed

lemma search_none_no_close: "CHR ''}'' \<notin> set s \<Longrightarrow> re_search die_pattern s = None"
proof (induction s)
  case Nil
  show ?case by (simp add: die_pattern_other)
next
  case (Cons c cs)
  have "die_pattern (c # cs) = []"
  proof (cases "c = CHR ''{''")
    case True
    with Cons.prems show ?thesis by (simp add: die_pattern_open close_absent)
  next
    case False
    then show ?thesis by (intro die_pattern_other) auto
  qed
  with Cons show ?case by simp
qed

lemma search_none_iff:
  "re_search die_pattern s = None \<longleftrightarrow>
   \<not> (\<exists>pre mid post. s = pre @ CHR ''{'' # mid @ CHR ''}'' # post)"
proof
  assume none: "re_search die_pattern s = None"
  show "\<not> (\<exists>pre mid post. s = pre @ CHR ''{'' # mid @ CHR ''}'' # post)"
  proof
    assume "\<exists>pre mid post. s = pre @ CHR ''{'' # mid @ CHR ''}'' # post"
    then obtain pre mid post where s: "s = pre @ CHR ''{'' # mid @ CHR ''}'' # post" by blast
    have "CHR ''{'' \<in> set (pre @ [CHR ''{''])" by simp
    then obtain p1 p2 where p: "pre @ [CHR ''{''] = p1 @ CHR ''{'' # p2" "CHR ''{'' \<notin> set p1"
      by (meson split_list_first)
    have "CHR ''}'' \<in> set (p2 @ mid @ CHR ''}'' # post)" by simp
    then obtain m1 m2 where m: "p2 @ mid @ CHR ''}'' # post = m1 @ CHR ''}'' # m2" "CHR ''}'' \<notin> set m2"
      by (meson split_list_last)
    have "s = (pre @ [CHR ''{'']) @ mid @ CHR ''}'' # post" using s by simp
    also have "\<dots> = p1 @ CHR ''{'' # (p2 @ mid @ CHR ''}'' # post)" using p(1) by simp
    also have "\<dots> = p1 @ CHR ''{'' # m1 @ CHR ''}'' # m2" using m(1) by simp
    finally have "re_search die_pattern s = Some (CHR ''{'' # m1 @ ''}'', m2)"
      using search_first_open_last_close [OF p(2) m(2)] by simp
    with none show False by simp
  qed
next
  assume no: "\<not> (\<exists>pre mid post. s = pre @ CHR ''{'' # mid @ CHR ''}'' # post)"
  then show "re_search die_pattern s = None"
  proof (induction s)
    case Nil
    show ?case by (simp add: die_pattern_other)
  next
    case (Cons c cs)
    have tl: "\<not> (\<exists>pre mid post. cs = pre @ CHR ''{'' # mid @ CHR ''}'' # post)"
    proof
      assume "\<exists>pre mid post. cs = pre @ CHR ''{'' # mid @ CHR ''}'' # post"
      then obtain pre mid post where "cs = pre @ CHR ''{'' # mid @ CHR ''}'' # post" by blast
      then have "c # cs = (c # pre) @ CHR ''{'' # mid @ CHR ''}'' # post" by simp
      with Cons.prems show False by blast
    qed
    have "die_pattern (c # cs) = []"
    proof (cases "c = CHR ''{''")
      case True
      have "CHR ''}'' \<notin> set cs"
      proof
        assume "CHR ''}'' \<in> set cs"
        then obtain m1 m2 where "cs = m1 @ CHR ''}'' # m2" by (meson split_list)
        with True have "c # cs = [] @ CHR ''{'' # m1 @ CHR ''}'' # m2" by simp
        with Cons.prems show False by blast
      qed
      with True show ?thesis by (simp add: die_pattern_open close_absent)
    next
      case False
      then show ?thesis by (intro die_pattern_other) auto
    qed
    with Cons.IH [OF tl] show ?case by simp
  qed
qed

section \<open>The pattern of the TrID output\<close>

declare findall.simps [simp del]

lemma star_parts: "(a, r) \<in> set (star_class P s) \<Longrightarrow> s = a @ r \<and> (\<forall>c \<in> set a. P c)"
proof (induction s arbitrary: a)
  case Nil
  then show ?case by simp
next
  case (Cons x xs)
  show ?case
  proof (cases "a = [] \<and> r = x # xs")
    case True
    then show ?thesis by simp
  next
    case False
    with Cons.prems obtain a' where a': "P x" "a = x # a'" "(a', r) \<in> set (star_class P xs)"
      by (auto split: if_splits)
    from Cons.IH [OF a'(3)] a'(1,2) show ?thesis by simp
  qed
qed

lemma plus_parts:
  assumes "(a, r) \<in> set (plus_class P s)"
  shows "s = a @ r \<and> a \<noteq> [] \<and> (\<forall>c \<in> set a. P c)"
proof (cases s)
  case Nil
  with assms show ?thesis by (simp add: plus_class_def)
next
  case (Cons x xs)
  with assms obtain a' where a': "P x" "a = x # a'" "(a', r) \<in> set (star_class P xs)"
    by (auto simp: plus_class_def split: if_splits)
  from star_parts [OF a'(3)] a'(1,2) Cons show ?thesis by simp
qed

lemma lit_parts: "(a, r) \<in> set (lit c s) \<Longrightarrow> a = [c] \<and> s = c # r"
  by (cases s) (auto simp: lit_def split: if_splits)

lemma seq_parts:
  "(x, r) \<in> set (seq p q s) \<longleftrightarrow> (\<exists>a b r1. (a, r1) \<in> set (p s) \<and> (b, r) \<in> set (q r1) \<and> x = a @ b)"
  by (force simp: seq_def)

lemma opt_parts: "(a, r) \<in> set (opt p s) \<longleftrightarrow> (a, r) \<in> set (p s) \<or> (a = [] \<and> r = s)"
  by (auto simp: opt_def)

lemma dot_not_digit: "\<not> is_digit CHR ''.''"
  by (simp add: is_digit_def)

lemma decimal_literal_whole: "ds \<noteq> [] \<Longrightarrow> \<forall>c \<in> set ds. is_digit c \<Longrightarrow> decimal_literal ds"
  by (simp add: decimal_literal_def takeWhile_eq_all_conv [THEN iffD2]
      dropWhile_eq_Nil_conv [THEN iffD2])

lemma decimal_literal_frac:
  "ds \<noteq> [] \<Longrightarrow> \<forall>c \<in> set ds. is_digit c \<Longrightarrow> fs \<noteq> [] \<Longrightarrow> \<forall>c \<in> set fs. is_digit c \<Longrightarrow>
   decimal_literal (ds @ CHR ''.'' # fs)"
  by (simp add: decimal_literal_def dot_not_digit list_all_iff)

lemma percent_group:
  assumes "(percent, r) \<in> set (seq (plus_class is_digit) (opt (seq (lit CHR ''.'') (plus_class is_digit))) s)"
  shows "decimal_literal percent"
proof -
  from assms obtain a b r1 where a: "(a, r1) \<in> set (plus_class is_digit s)"
    and b: "(b, r) \<in> set (opt (seq (lit CHR ''.'') (plus_class is_digit)) r1)" and p: "percent = a @ b"
    by (auto simp: seq_parts)
  from a have da: "a \<noteq> []" "\<forall>c \<in> set a. is_digit c" by (auto dest: plus_parts)
  from b consider "b = []" | "(b, r) \<in> set (seq (lit CHR ''.'') (plus_class is_digit) r1)"
    by (auto simp: opt_parts)
  then show ?thesis
  proof cases
    case 1
    with p da show ?thesis by (simp add: decimal_literal_whole)
  next
    case 2
    then obtain x fs r2 where "(x, r2) \<in> set (lit CHR ''.'' r1)" "(fs, r) \<in> set (plus_class is_digit r2)"
      "b = x @ fs" by (auto simp: seq_parts)
    then have "b = CHR ''.'' # fs" "fs \<noteq> []" "\<forall>c \<in> set fs. is_digit c"
      by (auto dest: lit_parts plus_parts)
    with p da show ?thesis by (simp add: decimal_literal_frac)
  qed
qed

lemma trid_pattern_percent:
  "((percent, ext, name), r) \<in> set (trid_pattern s) \<Longrightarrow> decimal_literal percent"
  by (auto simp: trid_pattern_def dest: percent_group)

lemma findall_elem:
  "g \<in> set (findall p s) \<Longrightarrow> \<exists>s' r. (g, r) \<in> set (p s')"
proof (induction p s rule: findall.induct)
  case (1 p s)
  note mem = "1.prems" [unfolded findall.simps [of p s]]
  show ?case
  proof (cases "p s")
    case Nil
    show ?thesis
    proof (cases s)
      case Nil': Nil
      with Nil mem show ?thesis by simp
    next
      case (Cons c cs)
      with Nil mem have "g \<in> set (findall p cs)" by simp
      with "1.IH"(1) Nil Cons show ?thesis by blast
    qed
  next
    case (Cons m ms)
    obtain g' r' where m: "m = (g', r')" by (cases m)
    show ?thesis
    proof (cases "g = g'")
      case True
      with Cons m have "(g, r') \<in> set (p s)" by simp
      then show ?thesis by blast
    next
      case False
      show ?thesis
      proof (cases "length r' < length s")
        case True
        with False Cons m mem have "g \<in> set (findall p r')" by simp
        with "1.IH"(2) Cons m True show ?thesis by blast
      next
        case nl: False
        show ?thesis
        proof (cases s)
          case Nil
          with False nl Cons m mem show ?thesis by simp
        next
          case c: (Cons c cs)
          with False nl Cons m mem have "g \<in> set (findall p cs)" by simp
          with "1.IH"(3) Cons m nl c show ?thesis by blast
        qed
      qed
    qed
  qed
qed

lemma findall_percent:
  "(percent, ext, name) \<in> set (findall trid_pattern s) \<Longrightarrow> decimal_literal percent"
  by (blast dest: findall_elem trid_pattern_percent)

lemma trid_entries_eq:
  "\<forall>m \<in> set ms. decimal_literal (fst m) \<Longrightarrow>
   trid_entries ms = Inr (map heuristic_match (filter above_cutoff ms))"
  by (induction ms rule: trid_entries.induct) (auto simp: bind_exn_def py_float_def)

lemma extract_trid_eq:
  "snd (extract_json_output_from_trid trid_data sample_hash) =
     Inr (rev (map heuristic_match (filter above_cutoff (findall trid_pattern trid_data))))"
proof -
  have "\<forall>m \<in> set (findall trid_pattern trid_data). decimal_literal (fst m)"
    using findall_percent by fastforce
  then have e: "trid_entries (findall trid_pattern trid_data) =
      Inr (map heuristic_match (filter above_cutoff (findall trid_pattern trid_data)))"
    by (rule trid_entries_eq)
  have n: "findall trid_pattern [] = []"
    by (simp add: findall.simps trid_pattern_def seq_def plus_class_def)
  show ?thesis
    by (auto simp: extract_json_output_from_trid_def Let_def e n bind_exn_def)
qed

section \<open>The end of \<open>process\<close>\<close>

lemma forward_sent:
  "sent (forward r dj tj mj logs) =
     (if dj = [] \<and> tj = [] \<and> mj = [] then []
      else case get_tags_from_die dj of Inl e \<Rightarrow> []
        | Inr tags \<Rightarrow> [\<lparr>headers = [(''type'', ''sample''), (''stage'', ''analyzed'')],
                    payload_sample = r, payload_tags = tags,
                    payload_attributes = \<lparr>attr_die = dj, attr_trid = tj, attr_magika = mj\<rparr>\<rparr>])"
  by (simp add: forward_def Let_def split: sum.splits)

lemma forward_raised:
  "raised (forward r dj tj mj logs) =
     (if dj = [] \<and> tj = [] \<and> mj = [] then None
      else case get_tags_from_die dj of Inl e \<Rightarrow> Some e | Inr tags \<Rightarrow> None)"
  by (simp add: forward_def Let_def split: sum.splits)

lemma process_sent_cases:
  "sent (process loads env r) = [] \<or>
   (\<exists>dj tj m logs. magika_identify env = Inr m \<and>
      sent (process loads env r) = sent (forward r dj tj (magika_json_of m) logs) \<and>
      raised (process loads env r) = raised (forward r dj tj (magika_json_of m) logs))"
  by (auto simp: process_def failed_def split: sum.splits prod.splits)

lemma process_raised_sent: "raised (process loads env r) = Some e \<Longrightarrow> sent (process loads env r) = []"
  by (auto simp: process_def failed_def forward_def Let_def split: sum.splits prod.splits if_splits)

lemma get_tags_from_die_Nil: "get_tags_from_die [] = Inr []"
  by (simp add: get_tags_from_die_def)

lemma silent_run:
  "process loads silent_detectors example_sample =
     \<lparr>logged = [LogInfo ''Successfully perform DiE, TrID, and Magika on abc'',
                LogInfo ''Successfully pushed DiE, TrID, and Magika data for abc''],
      sent = [\<lparr>headers = [(''type'', ''sample''), (''stage'', ''analyzed'')],
               payload_sample = example_sample, payload_tags = [],
               payload_attributes = \<lparr>attr_die = [], attr_trid = [],
                 attr_magika = magika_json_of magika_unknown\<rparr>\<rparr>],
      raised = None\<rparr>"
  by (simp add: process_def silent_detectors_def extract_json_output_from_die_def
      extract_json_output_from_trid_def forward_def magika_json_of_def get_tags_from_die_def
      example_sample_def format_opt_def)


section \<open>The claims about \<open>process\<close>\<close>




text \<open>
  C9. The list \<open>magika_json\<close> has exactly one element, so the three lists are never all
  empty, and every call of \<open>process\<close> that ends without an exception has sent exactly one
  task.
\<close>

theorem magika_list_singleton_always_sends:
  "length (magika_json_of magika_data) = 1 \<and>
   \<not> (die_json = [] \<and> trid_json = [] \<and> magika_json_of magika_data = []) \<and>
   (raised (process loads env r) = None \<longrightarrow>
      (\<exists>t. sent (process loads env r) = [t] \<and> length (attr_magika (payload_attributes t)) = 1))"
  by (auto simp: process_def failed_def forward_def Let_def magika_json_of_def
      split: sum.splits prod.splits)

theorem magika_list_singleton_always_sends_witness:
  "raised (process json_loads silent_detectors example_sample) = None \<and>
   (\<exists>t. sent (process json_loads silent_detectors example_sample) = [t] \<and>
        length (attr_magika (payload_attributes t)) = 1)"
  using magika_list_singleton_always_sends [of magika_unknown "[]" "[]" json_loads
      silent_detectors example_sample]
  by (simp add: silent_run)

section \<open>The claims about \<open>extract_json_output_from_die\<close>\<close>

text \<open>
  C5. The text handed to \<open>json.loads\<close> runs from the first opening brace of the output
  to its last closing brace. When \<open>json.loads\<close> raises on it, the function raises the
  same exception, \<open>process\<close> ends with it and no task is sent; no call of \<open>process\<close>
  that ends with an exception has sent a task.
\<close>

theorem die_span_parse_failure_is_fatal:
  assumes "CHR ''{'' \<notin> set pre" and "CHR ''}'' \<notin> set post"
    and "die_data = pre @ CHR ''{'' # mid @ CHR ''}'' # post"
    and "json_str = CHR ''{'' # mid @ ''}''"
  shows "re_search die_pattern die_data = Some (json_str, post) \<and>
    (loads json_str = Inl e \<longrightarrow>
       extract_json_output_from_die loads die_data sample_hash = ([], Inl e) \<and>
       (diec_output env = Inr die_data \<longrightarrow>
          process loads env r = \<lparr>logged = [], sent = [], raised = Some e\<rparr>)) \<and>
    (raised (process loads env r) \<noteq> None \<longrightarrow> sent (process loads env r) = [])"
proof -
  have s: "re_search die_pattern die_data = Some (json_str, post)"
    unfolding assms(3,4) by (rule search_first_open_last_close [OF assms(1,2)])
  have ne: "die_data \<noteq> []" using assms(3) by simp
  have x: "extract_json_output_from_die loads die_data h = ([], Inl e)" if "loads json_str = Inl e" for h
    using that s ne by (simp add: extract_json_output_from_die_def)
  have p: "process loads env r = \<lparr>logged = [], sent = [], raised = Some e\<rparr>"
    if "loads json_str = Inl e" "diec_output env = Inr die_data"
    using that x [of "sample_id r"] by (simp add: process_def failed_def)
  have f: "sent (process loads env r) = []" if "raised (process loads env r) \<noteq> None"
    using that process_raised_sent by blast
  from s x p f show ?thesis by blast
qed

theorem die_span_parse_failure_is_fatal_witness:
  "CHR ''{'' \<notin> set ''diec: '' \<and> CHR ''}'' \<notin> set '' done'' \<and>
   json_loads ''{not json}'' = Inl JSONDecodeError \<and>
   re_search die_pattern ''diec: {not json} done'' = Some (''{not json}'', '' done'') \<and>
   extract_json_output_from_die json_loads ''diec: {not json} done'' ''abc'' = ([], Inl JSONDecodeError) \<and>
   process json_loads \<lparr>diec_output = Inr ''diec: {not json} done'', trid_output = Inr [],
       magika_identify = Inl OSError\<rparr> \<lparr>sha256 = Some ''abc'', resource_name = ''a.exe''\<rparr>
     = \<lparr>logged = [], sent = [], raised = Some JSONDecodeError\<rparr>"
proof -
  have l: "json_loads ''{not json}'' = Inl JSONDecodeError" by code_simp
  have a: "CHR ''{'' \<notin> set ''diec: ''" and b: "CHR ''}'' \<notin> set '' done''" by simp_all
  show ?thesis
    using l die_span_parse_failure_is_fatal [OF a b, of "''diec: {not json} done''" "''not json''"
      "''{not json}''" json_loads JSONDecodeError "''abc''"
      "\<lparr>diec_output = Inr ''diec: {not json} done'', trid_output = Inr [], magika_identify = Inl OSError\<rparr>"
      "\<lparr>sha256 = Some ''abc'', resource_name = ''a.exe''\<rparr>"]
    by simp
qed

text \<open>
  C6. \<open>extract_json_output_from_die\<close> returns the empty list, and raises nothing: on
  the empty text, with no log line; on a text with no opening brace followed by a closing
  one, such as \<open>not json\<close>, with an error line; and when the parsed object has no key
  \<open>detects\<close>, with an error line. \<open>process\<close> then goes on with an empty \<open>die\<close> list.
\<close>

theorem die_soft_failures_return_empty:
  "extract_json_output_from_die loads [] sample_hash = ([], Inr []) \<and>
   (die_data \<noteq> [] \<and> \<not> (\<exists>pre mid post. die_data = pre @ CHR ''{'' # mid @ CHR ''}'' # post) \<longrightarrow>
      extract_json_output_from_die loads die_data sample_hash =
        ([LogError (''Could not find JSON object in DiE output for '' @ sample_hash)], Inr [])) \<and>
   extract_json_output_from_die loads ''not json'' sample_hash =
     ([LogError (''Could not find JSON object in DiE output for '' @ sample_hash)], Inr []) \<and>
   (re_search die_pattern die_data = Some (json_str, rest) \<and> loads json_str = Inr (JObj kvs) \<and>
    ''detects'' \<notin> set (map fst kvs) \<longrightarrow>
      extract_json_output_from_die loads die_data sample_hash =
        ([LogError (sample_hash @ '' failed running file-detection. Error code 01'')], Inr [])) \<and>
   (diec_output env = Inr die_data \<and>
    extract_json_output_from_die loads die_data (sample_id r) = (logs, Inr []) \<and>
    trid_output env = Inr trid_data \<and>
    extract_json_output_from_trid trid_data (sample_id r) = (logs', Inr trid_json) \<and>
    magika_identify env = Inr magika_data \<longrightarrow>
      raised (process loads env r) = None \<and>
      map payload_attributes (sent (process loads env r)) =
        [\<lparr>attr_die = [], attr_trid = trid_json, attr_magika = magika_json_of magika_data\<rparr>])"
proof (intro conjI impI)
  show "extract_json_output_from_die loads [] sample_hash = ([], Inr [])"
    by (simp add: extract_json_output_from_die_def)
  show "extract_json_output_from_die loads die_data sample_hash =
        ([LogError (''Could not find JSON object in DiE output for '' @ sample_hash)], Inr [])"
    if "die_data \<noteq> [] \<and> \<not> (\<exists>pre mid post. die_data = pre @ CHR ''{'' # mid @ CHR ''}'' # post)"
    using that search_none_iff [of die_data] by (simp add: extract_json_output_from_die_def)
  have "re_search die_pattern ''not json'' = None" by (rule search_none_no_open) simp
  then show "extract_json_output_from_die loads ''not json'' sample_hash =
     ([LogError (''Could not find JSON object in DiE output for '' @ sample_hash)], Inr [])"
    by (simp add: extract_json_output_from_die_def)
  show "extract_json_output_from_die loads die_data sample_hash =
        ([LogError (sample_hash @ '' failed running file-detection. Error code 01'')], Inr [])"
    if h: "re_search die_pattern die_data = Some (json_str, rest) \<and> loads json_str = Inr (JObj kvs) \<and>
      ''detects'' \<notin> set (map fst kvs)"
  proof -
    have "die_data \<noteq> []"
    proof
      assume "die_data = []"
      then have "re_search die_pattern die_data = None" by (simp add: die_pattern_other)
      with h show False by simp
    qed
    with h show ?thesis by (simp add: extract_json_output_from_die_def)
  qed
  assume c: "diec_output env = Inr die_data \<and>
    extract_json_output_from_die loads die_data (sample_id r) = (logs, Inr []) \<and>
    trid_output env = Inr trid_data \<and>
    extract_json_output_from_trid trid_data (sample_id r) = (logs', Inr trid_json) \<and>
    magika_identify env = Inr magika_data"
  then have p: "process loads env r =
      forward r [] trid_json (magika_json_of magika_data) (logs @ logs')"
    by (simp add: process_def)
  show "raised (process loads env r) = None"
    unfolding p by (simp add: forward_raised get_tags_from_die_Nil)
  show "map payload_attributes (sent (process loads env r)) =
        [\<lparr>attr_die = [], attr_trid = trid_json, attr_magika = magika_json_of magika_data\<rparr>]"
    unfolding p by (simp add: forward_sent get_tags_from_die_Nil magika_json_of_def)
qed

theorem die_soft_failures_return_empty_witness:
  "re_search die_pattern ''{\"info\":1}'' = Some (''{\"info\":1}'', []) \<and>
   json_loads ''{\"info\":1}'' = Inr (JObj [(''info'', JNum 1)]) \<and>
   extract_json_output_from_die json_loads ''{\"info\":1}'' ''abc'' =
     ([LogError ''abc failed running file-detection. Error code 01''], Inr []) \<and>
   raised (process json_loads \<lparr>diec_output = Inr ''{\"info\":1}'', trid_output = Inr [],
       magika_identify = Inr magika_unknown\<rparr> example_sample) = None \<and>
   map payload_attributes (sent (process json_loads \<lparr>diec_output = Inr ''{\"info\":1}'',
       trid_output = Inr [], magika_identify = Inr magika_unknown\<rparr> example_sample)) =
     [\<lparr>attr_die = [], attr_trid = [], attr_magika = magika_json_of magika_unknown\<rparr>]"
proof -
  have s: "re_search die_pattern ''{\"info\":1}'' = Some (''{\"info\":1}'', [])" by code_simp
  have l: "json_loads ''{\"info\":1}'' = Inr (JObj [(''info'', JNum 1)])" by code_simp
  have i: "sample_id example_sample = ''abc''" by (simp add: sample_id_def example_sample_def)
  have t: "extract_json_output_from_trid [] ''abc'' = ([], Inr [])"
    by (simp add: extract_json_output_from_trid_def)
  show ?thesis
    using s l i t die_soft_failures_return_empty [of json_loads "''abc''" "''{\"info\":1}''"
      "''{\"info\":1}''" "[]" "[(''info'', JNum 1)]"
      "\<lparr>diec_output = Inr ''{\"info\":1}'', trid_output = Inr [], magika_identify = Inr magika_unknown\<rparr>"
      example_sample "[LogError ''abc failed running file-detection. Error code 01'']" "[]" "[]" "[]"
      magika_unknown]
    by simp
qed

section \<open>The claims about \<open>extract_json_output_from_trid\<close>\<close>

lemma findall_report: "findall trid_pattern trid_report =
   [(''80.0'', ''.exe'', ''Win32 Executable''), (''3.0'', ''.bin'', ''Generic binary'')]"
  by code_simp






text \<open>
  C10. \<open>extract_json_output_from_trid\<close> returns a list on every text and raises
  nothing: the empty list on the empty text; the empty list, after an error line, when
  nothing matches; and the first group of every match is a decimal literal, digits with an
  optional fraction, on which \<open>float\<close> succeeds.
\<close>

theorem trid_never_raises:
  "(\<exists>logs entries. extract_json_output_from_trid trid_data sample_hash = (logs, Inr entries)) \<and>
   extract_json_output_from_trid [] sample_hash = ([], Inr []) \<and>
   (trid_data \<noteq> [] \<and> findall trid_pattern trid_data = [] \<longrightarrow>
      extract_json_output_from_trid trid_data sample_hash =
        ([LogError (''Could not find JSON object in TrID output for '' @ sample_hash)], Inr [])) \<and>
   (\<forall>m \<in> set (findall trid_pattern trid_data).
      decimal_literal (fst m) \<and> py_float (fst m) = Inr (decimal_value (fst m)))"
proof (intro conjI impI ballI)
  show "\<exists>logs entries. extract_json_output_from_trid trid_data sample_hash = (logs, Inr entries)"
    using extract_trid_eq [of trid_data sample_hash]
    by (cases "extract_json_output_from_trid trid_data sample_hash") auto
  show "extract_json_output_from_trid [] sample_hash = ([], Inr [])"
    by (simp add: extract_json_output_from_trid_def)
  show "extract_json_output_from_trid trid_data sample_hash =
        ([LogError (''Could not find JSON object in TrID output for '' @ sample_hash)], Inr [])"
    if "trid_data \<noteq> [] \<and> findall trid_pattern trid_data = []"
    using that by (simp add: extract_json_output_from_trid_def)
  fix m assume m: "m \<in> set (findall trid_pattern trid_data)"
  obtain percent ext name where "m = (percent, ext, name)" by (cases m)
  with m show "decimal_literal (fst m)" by (auto dest: findall_percent)
  then show "py_float (fst m) = Inr (decimal_value (fst m))" by (simp add: py_float_def)
qed

theorem trid_never_raises_witness:
  "extract_json_output_from_trid ''no match here'' ''abc'' =
     ([LogError ''Could not find JSON object in TrID output for abc''], Inr []) \<and>
   decimal_literal ''80.0'' \<and> py_float ''80.0'' = Inr 80 \<and>
   decimal_literal ''3.0'' \<and> py_float ''3.0'' = Inr 3"
proof -
  have e: "findall trid_pattern ''no match here'' = []" by code_simp
  have v: "decimal_value ''80.0'' = 80" "decimal_value ''3.0'' = 3" by code_simp+
  from trid_never_raises [of "''no match here''" "''abc''"] e
  have 1: "extract_json_output_from_trid ''no match here'' ''abc'' =
     ([LogError ''Could not find JSON object in TrID output for abc''], Inr [])" by simp
  from trid_never_raises [of trid_report "''abc''"] findall_report v
  have 2: "decimal_literal ''80.0'' \<and> py_float ''80.0'' = Inr 80 \<and>
   decimal_literal ''3.0'' \<and> py_float ''3.0'' = Inr 3" by simp
  from 1 2 show ?thesis by blast
qed

section \<open>The claim about \<open>get_tags_from_die\<close>\<close>

lemma in_keys_iff: "k \<in> fst ` set kvs \<longleftrightarrow> map_of kvs k \<noteq> None"
  by (simp add: map_of_eq_None_iff)

lemma set_add_set: "set (set_add x tags) = insert x (set tags)"
  by (auto simp: set_add_def)

lemma set_add_distinct: "distinct tags \<Longrightarrow> distinct (set_add x tags)"
  by (simp add: set_add_def)

lemma packer_tags_typed:
  assumes "typed_value v"
  shows "packer_tags v tags = Inr (case tag_of_value v of None \<Rightarrow> tags | Some t \<Rightarrow> set_add t tags)"
proof -
  from assms obtain kvs where v: "v = JObj kvs" by (cases v) auto
  show ?thesis
  proof (cases "map_of kvs ''type''")
    case None
    then show ?thesis
      by (simp add: v packer_tags_def bind_exn_def in_keys_iff tag_of_value_def)
  next
    case ty: (Some tyv)
    show ?thesis
    proof (cases "map_of kvs ''name''")
      case None
      with ty show ?thesis
        by (simp add: v packer_tags_def bind_exn_def in_keys_iff tag_of_value_def
            split: json.splits)
    next
      case nm: (Some nmv)
      from assms ty nm obtain a b where ab: "tyv = JStr a" "nmv = JStr b"
        by (auto simp: v split: json.splits)
      with ty nm show ?thesis
        by (simp add: v packer_tags_def bind_exn_def in_keys_iff tag_of_value_def value_tag_def)
    qed
  qed
qed

lemma packers_loop:
  "list_all typed_value vs \<Longrightarrow>
   \<exists>tags'. for_each packer_tags vs tags = Inr tags' \<and>
     set tags' = set tags \<union> set (List.map_filter tag_of_value vs) \<and>
     (distinct tags \<longrightarrow> distinct tags')"
proof (induction vs arbitrary: tags)
  case Nil
  then show ?case by simp
next
  case (Cons v vs)
  then have tv: "typed_value v" and tvs: "list_all typed_value vs" by simp_all
  let ?t1 = "case tag_of_value v of None \<Rightarrow> tags | Some t \<Rightarrow> set_add t tags"
  from Cons.IH [OF tvs, of ?t1] obtain tags' where
    t: "for_each packer_tags vs ?t1 = Inr tags'"
       "set tags' = set ?t1 \<union> set (List.map_filter tag_of_value vs)"
       "distinct ?t1 \<longrightarrow> distinct tags'" by blast
  have "for_each packer_tags (v # vs) tags = Inr tags'"
    using t(1) by (simp add: packer_tags_typed [OF tv] bind_exn_def)
  moreover have "set tags' = set tags \<union> set (List.map_filter tag_of_value (v # vs))"
    using t(2) by (auto simp: set_add_set split: option.splits)
  moreover have "distinct tags \<longrightarrow> distinct tags'"
    using t(3) by (auto simp: set_add_distinct split: option.splits)
  ultimately show ?case by blast
qed

lemma detected_tags_typed:
  assumes "typed_finding f"
  shows "\<exists>tags'. detected_tags f tags = Inr tags' \<and>
     set tags' = set tags \<union> set (List.map_filter tag_of_value (finding_values f)) \<and>
     (distinct tags \<longrightarrow> distinct tags')"
proof -
  from assms obtain kvs where f: "f = JObj kvs" by (cases f) auto
  show ?thesis
  proof (cases "map_of kvs ''values''")
    case None
    then show ?thesis
      by (simp add: f detected_tags_def bind_exn_def in_keys_iff)
  next
    case (Some vs)
    with assms obtain xs where xs: "vs = JArr xs" "list_all typed_value xs"
      by (auto simp: f split: json.splits)
    from packers_loop [OF xs(2), of tags] Some xs(1) show ?thesis
      by (simp add: f detected_tags_def bind_exn_def in_keys_iff)
  qed
qed

lemma detected_loop:
  "list_all typed_finding fs \<Longrightarrow>
   \<exists>tags'. for_each detected_tags fs tags = Inr tags' \<and>
     set tags' = set tags \<union> derived_tags fs \<and> (distinct tags \<longrightarrow> distinct tags')"
proof (induction fs arbitrary: tags)
  case Nil
  then show ?case by (simp add: derived_tags_def)
next
  case (Cons f fs)
  then have tf: "typed_finding f" and tfs: "list_all typed_finding fs" by simp_all
  from detected_tags_typed [OF tf, of tags] obtain t1 where
    t1: "detected_tags f tags = Inr t1"
        "set t1 = set tags \<union> set (List.map_filter tag_of_value (finding_values f))"
        "distinct tags \<longrightarrow> distinct t1" by blast
  from Cons.IH [OF tfs, of t1] obtain tags' where
    t: "for_each detected_tags fs t1 = Inr tags'" "set tags' = set t1 \<union> derived_tags fs"
       "distinct t1 \<longrightarrow> distinct tags'" by blast
  have "for_each detected_tags (f # fs) tags = Inr tags'"
    using t1(1) t(1) by (simp add: bind_exn_def)
  moreover have "set tags' = set tags \<union> derived_tags (f # fs)"
    using t1(2) t(2) by (auto simp: derived_tags_def map_filter_def)
  moreover have "distinct tags \<longrightarrow> distinct tags'" using t1(3) t(3) by blast
  ultimately show ?case by blast
qed

lemma single_value_tags:
  "get_tags_from_die [JObj [(''values'', JArr [JObj [(''type'', JStr ty), (''name'', JStr nm)]])]] =
     Inr (case value_tag ty nm of None \<Rightarrow> [] | Some t \<Rightarrow> [t])"
  by (simp add: get_tags_from_die_def detected_tags_def bind_exn_def packer_tags_def
      value_tag_def set_add_def)

lemma set_map_filter: "y \<in> set (List.map_filter f xs) \<longleftrightarrow> (\<exists>x \<in> set xs. f x = Some y)"
  by (induction xs) (auto split: option.splits)

lemma tag_of_value_iff:
  "tag_of_value v = Some tag \<longleftrightarrow>
     (\<exists>ty nm. value_fields v = Some (ty, nm) \<and> value_tag ty nm = Some tag)"
  by (cases "value_fields v") (auto simp: tag_of_value_def)

lemma derived_tags_iff:
  "tag \<in> derived_tags findings \<longleftrightarrow>
     (\<exists>f \<in> set findings. \<exists>v \<in> set (finding_values f). \<exists>ty nm.
        value_fields v = Some (ty, nm) \<and> value_tag ty nm = Some tag)"
proof -
  have "tag \<in> derived_tags findings \<longleftrightarrow>
      (\<exists>v \<in> set (concat (map finding_values findings)). tag_of_value v = Some tag)"
    by (simp add: derived_tags_def set_map_filter)
  also have "\<dots> \<longleftrightarrow> (\<exists>f \<in> set findings. \<exists>v \<in> set (finding_values f). tag_of_value v = Some tag)"
    by auto
  also have "\<dots> \<longleftrightarrow> (\<exists>f \<in> set findings. \<exists>v \<in> set (finding_values f). \<exists>ty nm.
        value_fields v = Some (ty, nm) \<and> value_tag ty nm = Some tag)"
    by (simp only: tag_of_value_iff)
  finally show ?thesis .
qed

text \<open>
  C2. On findings of the data model \<open>get_tags_from_die\<close> raises nothing and returns,
  without repetition, exactly the tags of the values that have both a type and a name: no
  tag when the normalised type or name is \<open>unknown\<close>, the normalised name alone when the
  normalised type is \<open>malware\<close>, and the normalised type, a colon and the normalised name
  otherwise. So \<open>Malware\<close>, \<open>Emotet\<close> gives \<open>emotet\<close>, and \<open>Packer\<close>, \<open>UPX\<close> gives
  \<open>packer:upx\<close>. The statement fixes the set of the tags, not their order.
\<close>

theorem tags_follow_the_rules:
  "(list_all typed_finding die_data \<longrightarrow>
      (\<exists>tags. get_tags_from_die die_data = Inr tags \<and> distinct tags \<and>
         set tags = derived_tags die_data)) \<and>
   get_tags_from_die [JObj [(''values'', JArr [JObj [(''type'', JStr ty), (''name'', JStr nm)]])]] =
     Inr (if normalize_str ty = ''unknown'' \<or> normalize_str nm = ''unknown'' then []
          else if normalize_str ty = ''malware'' then [normalize_str nm]
          else [normalize_str ty @ '':'' @ normalize_str nm]) \<and>
   get_tags_from_die [JObj [(''values'', JArr [JObj [(''type'', JStr ''Malware''), (''name'', JStr ''Emotet'')]])]] =
     Inr [''emotet''] \<and>
   get_tags_from_die [JObj [(''values'', JArr [JObj [(''type'', JStr ''Packer''), (''name'', JStr ''UPX'')]])]] =
     Inr [''packer:upx'']"
proof (intro conjI impI)
  show "\<exists>tags. get_tags_from_die die_data = Inr tags \<and> distinct tags \<and>
         set tags = derived_tags die_data"
    if "list_all typed_finding die_data"
    using detected_loop [OF that, of "[]"] by (auto simp: get_tags_from_die_def)
  show "get_tags_from_die [JObj [(''values'', JArr [JObj [(''type'', JStr ty), (''name'', JStr nm)]])]] =
     Inr (if normalize_str ty = ''unknown'' \<or> normalize_str nm = ''unknown'' then []
          else if normalize_str ty = ''malware'' then [normalize_str nm]
          else [normalize_str ty @ '':'' @ normalize_str nm])"
    by (simp add: single_value_tags value_tag_def)
  show "get_tags_from_die [JObj [(''values'', JArr [JObj [(''type'', JStr ''Malware''), (''name'', JStr ''Emotet'')]])]] =
     Inr [''emotet'']"
    by code_simp
  show "get_tags_from_die [JObj [(''values'', JArr [JObj [(''type'', JStr ''Packer''), (''name'', JStr ''UPX'')]])]] =
     Inr [''packer:upx'']"
    by code_simp
qed

theorem tags_follow_the_rules_witness:
  "list_all typed_finding example_findings \<and>
   get_tags_from_die example_findings = Inr [''emotet'', ''packer:upx''] \<and>
   derived_tags example_findings = {''emotet'', ''packer:upx''}"
proof -
  have t: "list_all typed_finding example_findings" by code_simp
  have g: "get_tags_from_die example_findings = Inr [''emotet'', ''packer:upx'']" by code_simp
  from tags_follow_the_rules [of example_findings] t g
  have "set [''emotet'', ''packer:upx''] = derived_tags example_findings" by auto
  with t g show ?thesis by simp
qed

section \<open>The filter of \<open>extract_json_output_from_die\<close>\<close>

text \<open>
  On findings whose single value, if there is just one, has a \<open>type\<close>, the function
  returns exactly the findings the specification keeps; the two texts of the specification
  give the results it states.
\<close>

lemma die_step_typed:
  assumes "typed_entry d"
  shows "die_step d out = Inr (if finding_kept d then out @ [d] else out)"
proof -
  from assms obtain kvs where d: "d = JObj kvs" by (cases d) auto
  show ?thesis
  proof (cases "map_of kvs ''values''")
    case None
    then show ?thesis by (simp add: d die_step_def bind_exn_def finding_kept_def)
  next
    case (Some vs)
    with assms obtain xs where xs: "vs = JArr xs" by (auto simp: d split: json.splits)
    show ?thesis
    proof (cases xs)
      case Nil
      with Some xs show ?thesis by (simp add: d die_step_def bind_exn_def finding_kept_def)
    next
      case (Cons v ys)
      show ?thesis
      proof (cases ys)
        case Nil
        with assms Some xs Cons obtain kv t where v: "v = JObj kv" "map_of kv ''type'' = Some t"
          by (cases v) (auto simp: d)
        with Some xs Cons Nil show ?thesis
          by (simp add: d die_step_def bind_exn_def finding_kept_def)
      next
        case c: (Cons y zs)
        with Some xs Cons show ?thesis
          by (simp add: d die_step_def bind_exn_def finding_kept_def)
      qed
    qed
  qed
qed

lemma die_loop_typed:
  "list_all typed_entry ds \<Longrightarrow> for_each die_step ds out = Inr (out @ filter finding_kept ds)"
  by (induction ds arbitrary: out) (simp_all add: die_step_typed bind_exn_def)

lemma die_filter_typed:
  assumes "re_search die_pattern die_data = Some (json_str, rest)"
    and "loads json_str = Inr (JObj kvs)" and "map_of kvs ''detects'' = Some (JArr ds)"
    and "list_all typed_entry ds"
  shows "extract_json_output_from_die loads die_data sample_hash = ([], Inr (filter finding_kept ds))"
proof -
  have "die_data \<noteq> []"
  proof
    assume "die_data = []"
    then have "re_search die_pattern die_data = None" by (simp add: die_pattern_other)
    with assms(1) show False by simp
  qed
  moreover have "''detects'' \<in> fst ` set kvs" using assms(3) by (simp add: in_keys_iff)
  ultimately show ?thesis
    using assms by (simp add: extract_json_output_from_die_def bind_exn_def die_loop_typed)
qed

lemma die_examples:
  "extract_json_output_from_die json_loads
     ''{\"detects\":[{\"values\":[{\"type\":\"Unknown\",\"name\":\"x\"}]}]}'' ''abc'' = ([], Inr [])"
  "extract_json_output_from_die json_loads
     ''{\"detects\":[{\"values\":[{\"type\":\"Packer\",\"name\":\"UPX\"}]}]}'' ''abc'' =
     ([], Inr [JObj [(''values'', JArr [JObj [(''type'', JStr ''Packer''), (''name'', JStr ''UPX'')]])]])"
  by code_simp+

text \<open>
  C3 fails on a finding whose only value has no \<open>type\<close>: the claim keeps the finding,
  the function raises \<open>KeyError\<close> and \<open>process\<close> ends with it, nothing sent.
  \<open>get_tags_from_die\<close> passes over the same finding without an exception.
\<close>

theorem single_value_without_type_raises:
  "json_loads ''{\"detects\":[{\"values\":[{\"name\":\"x\"}]}]}'' =
     Inr (JObj [(''detects'', JArr [JObj [(''values'', JArr [JObj [(''name'', JStr ''x'')]])]])]) \<and>
   finding_kept (JObj [(''values'', JArr [JObj [(''name'', JStr ''x'')]])]) \<and>
   extract_json_output_from_die json_loads
     ''{\"detects\":[{\"values\":[{\"name\":\"x\"}]}]}'' ''abc'' = ([], Inl KeyError) \<and>
   process json_loads \<lparr>diec_output = Inr ''{\"detects\":[{\"values\":[{\"name\":\"x\"}]}]}'',
       trid_output = Inr [], magika_identify = Inr magika_unknown\<rparr> example_sample =
     \<lparr>logged = [], sent = [], raised = Some KeyError\<rparr> \<and>
   get_tags_from_die [JObj [(''values'', JArr [JObj [(''name'', JStr ''x'')]])]] = Inr []"
  by code_simp

end
